theory Spec2Isabelle
  imports Main
begin

section \<open>JavaScript values used by the handlers\<close>

text \<open>
  A request field or a nullable column is a \<open>string option\<close>: \<open>None\<close> is
  \<open>undefined\<close>/\<open>null\<close>. JavaScript's \<open>!v\<close> holds for a missing value and for the
  empty string.
\<close>

definition truthy :: "string option \<Rightarrow> bool" where
  "truthy v = (case v of None \<Rightarrow> False | Some s \<Rightarrow> s \<noteq> [])"

text \<open>\<open>a || b\<close> where \<open>b\<close> is a string.\<close>

definition js_or :: "string option \<Rightarrow> string \<Rightarrow> string" where
  "js_or a b = (case a of None \<Rightarrow> b | Some s \<Rightarrow> if s = [] then b else s)"

text \<open>\<open>a || b\<close> where \<open>b\<close> may be missing too.\<close>

definition js_or_opt :: "string option \<Rightarrow> string option \<Rightarrow> string option" where
  "js_or_opt a b = (if truthy a then a else b)"

text \<open>Decimal rendering of a number inside a template literal.\<close>

fun decimal :: "nat \<Rightarrow> string" where
  "decimal n =
     (if n < 10 then [char_of (48 + n)]
      else decimal (n div 10) @ [char_of (48 + n mod 10)])"

definition number_string :: "int \<Rightarrow> string" where
  "number_string i = (if i < 0 then CHR ''-'' # decimal (nat (- i)) else decimal (nat i))"

text \<open>\<open>Math.ceil(a / b)\<close> for integers \<open>a\<close> and a positive integer \<open>b\<close>.\<close>

definition ceil_div :: "int \<Rightarrow> int \<Rightarrow> int" where
  "ceil_div a b = - ((- a) div b)"

text \<open>
  A \<open>string\<close> holds the UTF-8 bytes of a JavaScript string. \<open>s.length\<close> counts UTF-16
  code units: a byte below 128 or a lead byte of a two- or three-byte sequence starts a
  character of one unit, a lead byte of a four-byte sequence (240 and above) starts a
  character of two units, and a continuation byte (128 to 191) starts none.
\<close>

definition utf16_units :: "char \<Rightarrow> nat" where
  "utf16_units c =
     (if (of_char c :: nat) < 128 then 1
      else if (of_char c :: nat) < 192 then 0
      else if (of_char c :: nat) < 240 then 1
      else 2)"

definition js_length :: "string \<Rightarrow> nat" where
  "js_length s = sum_list (map utf16_units s)"

text \<open>
  SQLite compares two TEXT values bytewise (BINARY collation): the first differing
  byte decides, and a proper prefix is smaller.
\<close>

fun text_less :: "string \<Rightarrow> string \<Rightarrow> bool" where
  "text_less [] [] = False"
| "text_less [] (y # ys) = True"
| "text_less (x # xs) [] = False"
| "text_less (x # xs) (y # ys) =
     (if (of_char x :: nat) < of_char y then True
      else if (of_char y :: nat) < of_char x then False
      else text_less xs ys)"

section \<open>The database (database.js)\<close>

text \<open>
  Each table is the list of its rows in insertion order. Columns that no modelled
  handler reads or writes (\<open>bio\<close>, \<open>created_at\<close>, \<open>updated_at\<close>, \<open>attempt_time\<close>,
  \<open>user_agent\<close>, \<open>session_data\<close>) are left out. A DATETIME written by JavaScript as
  \<open>toISOString()\<close> and read back by \<open>new Date(...)\<close> is the number of milliseconds
  since the epoch (\<open>lockout_until\<close>); a DATETIME that SQLite itself compares stays the
  stored text (\<open>expires_at\<close>).
\<close>

record user =
  uid :: int
  username :: string
  password_hash :: string
  email :: string
  display_name :: string
  profile_color :: "string option"
  profile_avatar :: "string option"
  is_locked :: bool
  lockout_until :: "int option"
  failed_login_attempts :: int
  last_login :: "string option"

record login_attempt =
  la_username :: string
  la_ip_address :: string
  la_success :: bool
  la_failure_reason :: "string option"

record reset_token =
  prt_id :: int
  prt_user_id :: int
  prt_token :: string
  prt_expires_at :: string
  prt_used :: bool

record session_row =
  sess_id :: string
  sess_user_id :: int

record chat_row =
  cm_id :: int
  cm_user_id :: int
  cm_message :: string

record db =
  users :: "user list"
  login_attempts :: "login_attempt list"
  password_reset_tokens :: "reset_token list"
  prt_seq :: int
  sessions :: "session_row list"
  chat_messages :: "chat_row list"
  chat_seq :: int

text \<open>\<open>SELECT * FROM users WHERE username = ?\<close> with \<open>.get\<close>: the first matching row.\<close>

definition user_by_username :: "db \<Rightarrow> string \<Rightarrow> user option" where
  "user_by_username d n = find (\<lambda>u. username u = n) (users d)"

definition user_by_email :: "db \<Rightarrow> string \<Rightarrow> user option" where
  "user_by_email d e = find (\<lambda>u. email u = e) (users d)"

definition user_by_id :: "db \<Rightarrow> int \<Rightarrow> user option" where
  "user_by_id d i = find (\<lambda>u. uid u = i) (users d)"

text \<open>\<open>UPDATE users SET ... WHERE id = ?\<close>.\<close>

definition update_user :: "int \<Rightarrow> (user \<Rightarrow> user) \<Rightarrow> db \<Rightarrow> db" where
  "update_user i f d = d\<lparr>users := map (\<lambda>u. if uid u = i then f u else u) (users d)\<rparr>"

section \<open>Login (routes/auth.js)\<close>

datatype response =
    RedirectLoginError string
      \<comment> \<open>redirect to \<open>/api/auth/login?error=\<close> followed by \<open>encodeURIComponent\<close> of the message\<close>
  | RedirectLoginSuccess string
      \<comment> \<open>redirect to \<open>/public/login-success.html?username=\<close> followed by the encoded name\<close>
  | Redirect string
  | Json nat bool string
      \<comment> \<open>status code, \<open>success\<close>, \<open>message\<close>\<close>
  | RenderResetPassword "string option" "string option" bool
      \<comment> \<open>the \<open>reset-password\<close> view with \<open>token\<close>, \<open>error\<close>, \<open>tokenExpired\<close>\<close>

record session_data =
  sd_userId :: int
  sd_username :: string
  sd_displayName :: string
  sd_isLoggedIn :: bool

text \<open>
  What one login request reads from outside the database: the request body, the
  client address, \<open>new Date()\<close> at the lock check, \<open>Date.now()\<close> inside
  \<open>handleFailedLogin\<close>, and SQLite's \<open>CURRENT_TIMESTAMP\<close> at a successful login.
\<close>

record login_request =
  req_username :: "string option"
  req_password :: "string option"
  req_ip :: string
  now_check :: int
  now_failed :: int
  current_timestamp :: string

definition logLoginAttempt :: "string \<Rightarrow> string \<Rightarrow> bool \<Rightarrow> string \<Rightarrow> db \<Rightarrow> db" where
  "logLoginAttempt n ip ok reason d =
     d\<lparr>login_attempts := login_attempts d @
        [\<lparr>la_username = n, la_ip_address = ip, la_success = ok,
          la_failure_reason = Some reason\<rparr>]\<rparr>"

definition handleFailedLogin :: "int \<Rightarrow> int \<Rightarrow> string \<Rightarrow> string \<Rightarrow> db \<Rightarrow> db" where
  "handleFailedLogin now userId n ip d =
     (let d1 = update_user userId
                 (\<lambda>u. u\<lparr>failed_login_attempts := failed_login_attempts u + 1\<rparr>) d
      in case user_by_id d1 userId of
           Some u \<Rightarrow>
             if failed_login_attempts u \<ge> 5
             then logLoginAttempt n ip False ''account_locked_after_attempts''
                    (update_user userId
                       (\<lambda>u. u\<lparr>is_locked := True,
                               lockout_until := Some (now + 15 * 60 * 1000)\<rparr>) d1)
             else logLoginAttempt n ip False ''invalid_password'' d1
         | None \<Rightarrow> logLoginAttempt n ip False ''invalid_password'' d1)"

text \<open>
  The part of \<open>POST /login\<close> after the lock check: \<open>comparePassword\<close> (bcrypt, from
  \<open>modules/password-utils\<close>) is a parameter. \<open>u\<close> is the row read before the lock
  check; \<open>d\<close> is the database as it is now.
\<close>

definition check_credentials ::
  "(string \<Rightarrow> string \<Rightarrow> bool) \<Rightarrow> login_request \<Rightarrow> string \<Rightarrow> string \<Rightarrow> user \<Rightarrow> db
     \<Rightarrow> response \<times> session_data option \<times> db" where
  "check_credentials comparePassword r n pw u d =
     (if \<not> comparePassword pw (password_hash u)
      then (RedirectLoginError ''Invalid username or password'', None,
            handleFailedLogin (now_failed r) (uid u) n (req_ip r) d)
      else (RedirectLoginSuccess (js_or (Some (display_name u)) (username u)),
            Some \<lparr>sd_userId = uid u, sd_username = username u,
                  sd_displayName = display_name u, sd_isLoggedIn = True\<rparr>,
            logLoginAttempt n (req_ip r) True ''success''
              (update_user (uid u)
                 (\<lambda>u. u\<lparr>last_login := Some (current_timestamp r),
                         failed_login_attempts := 0,
                         is_locked := False,
                         lockout_until := None\<rparr>) d)))"

definition login ::
  "(string \<Rightarrow> string \<Rightarrow> bool) \<Rightarrow> login_request \<Rightarrow> db
     \<Rightarrow> response \<times> session_data option \<times> db" where
  "login comparePassword r d =
     (if \<not> truthy (req_username r) \<or> \<not> truthy (req_password r)
      then (RedirectLoginError ''Username and password are required'', None,
            logLoginAttempt (js_or (req_username r) []) (req_ip r) False
              ''missing_credentials'' d)
      else
        let n = the (req_username r); pw = the (req_password r) in
        case user_by_username d n of
          None \<Rightarrow>
            (RedirectLoginError ''Invalid username or password'', None,
             logLoginAttempt n (req_ip r) False ''user_not_found'' d)
        | Some u \<Rightarrow>
            (case (if is_locked u then lockout_until u else None) of
               Some lockoutEnd \<Rightarrow>
                 if now_check r < lockoutEnd
                 then (RedirectLoginError
                         (''Account is locked. Try again in '' @
                          number_string (ceil_div (lockoutEnd - now_check r) (1000 * 60)) @
                          '' minutes.''),
                       None,
                       logLoginAttempt n (req_ip r) False ''account_locked'' d)
                 else check_credentials comparePassword r n pw u
                        (update_user (uid u)
                           (\<lambda>u. u\<lparr>is_locked := False, lockout_until := None,
                                   failed_login_attempts := 0\<rparr>) d)
             | None \<Rightarrow> check_credentials comparePassword r n pw u d))"

text \<open>
  The \<open>catch\<close> blocks of the handlers run when a database call or a helper throws. The
  database operations and the helpers of this model are total, so every path modelled
  here is one on which nothing throws.

  Requests handled one after the other, each on the database the previous one left.
\<close>

fun login_seq ::
  "(string \<Rightarrow> string \<Rightarrow> bool) \<Rightarrow> login_request list \<Rightarrow> db \<Rightarrow> response list \<times> db" where
  "login_seq comparePassword [] d = ([], d)"
| "login_seq comparePassword (r # rs) d =
     (case login comparePassword r d of
        (resp, _, d1) \<Rightarrow>
          (case login_seq comparePassword rs d1 of (resps, d2) \<Rightarrow> (resp # resps, d2)))"

section \<open>Password reset (routes/auth.js)\<close>

text \<open>
  A table declared \<open>INTEGER PRIMARY KEY AUTOINCREMENT\<close> gives a new row an id larger
  than every id the table holds or has ever held.
\<close>

definition next_rowid :: "int \<Rightarrow> int list \<Rightarrow> int" where
  "next_rowid seq ids = fold max ids seq + 1"

text \<open>
  \<open>INSERT OR REPLACE INTO password_reset_tokens (user_id, token, expires_at, created_at)\<close>:
  the rows that would violate a uniqueness constraint are deleted, then the row is
  inserted. The table's constraints are the primary key \<open>id\<close> (fresh here) and
  \<open>token UNIQUE\<close>; \<open>used\<close> takes its default.
\<close>

definition insert_or_replace_token :: "int \<Rightarrow> string \<Rightarrow> string \<Rightarrow> db \<Rightarrow> db" where
  "insert_or_replace_token userId tok expires d =
     (let i = next_rowid (prt_seq d) (map prt_id (password_reset_tokens d)) in
      d\<lparr>password_reset_tokens :=
          filter (\<lambda>t. prt_token t \<noteq> tok) (password_reset_tokens d) @
          [\<lparr>prt_id = i, prt_user_id = userId, prt_token = tok,
            prt_expires_at = expires, prt_used = False\<rparr>],
        prt_seq := i\<rparr>)"

text \<open>
  What one \<open>POST /forgot-password\<close> reads from outside the database: the body's
  \<open>email\<close>, the hex string of \<open>crypto.randomBytes(32)\<close>, the ISO text of
  \<open>Date.now() + 3600000\<close>, and whether \<open>sendPasswordResetEmail\<close> reported success.
\<close>

record forgot_request =
  fp_email :: "string option"
  resetToken :: string
  expirationTime :: string
  emailResult_success :: bool

definition forgot_password :: "forgot_request \<Rightarrow> db \<Rightarrow> response \<times> db" where
  "forgot_password r d =
     (if \<not> truthy (fp_email r) then (Json 400 False ''Email is required'', d)
      else
        case user_by_email d (the (fp_email r)) of
          None \<Rightarrow>
            (Json 200 True
               ''If an account with that email exists, a password reset link has been sent.'',
             d)
        | Some u \<Rightarrow>
            let d1 = insert_or_replace_token (uid u) (resetToken r) (expirationTime r) d in
            if emailResult_success r
            then (Json 200 True
                    ''If an account with that email exists, a password reset link has been sent.'',
                  d1)
            else (Json 500 False ''Error sending reset email. Please try again later.'', d1))"

fun forgot_seq :: "forgot_request list \<Rightarrow> db \<Rightarrow> db" where
  "forgot_seq [] d = d"
| "forgot_seq (r # rs) d = forgot_seq rs (snd (forgot_password r d))"

text \<open>
  A token is active when it is unused and \<open>expires_at > datetime('now')\<close>, the test the
  reset routes make (a comparison of TEXT values).
\<close>

definition active_tokens :: "db \<Rightarrow> int \<Rightarrow> string \<Rightarrow> reset_token list" where
  "active_tokens d userId now =
     filter (\<lambda>t. prt_user_id t = userId \<and> \<not> prt_used t \<and> text_less now (prt_expires_at t))
       (password_reset_tokens d)"

text \<open>
  \<open>SELECT prt.*, u.id as user_id, u.email FROM password_reset_tokens prt
  JOIN users u ON prt.user_id = u.id WHERE prt.token = ? AND prt.expires_at > datetime('now')\<close>
  with \<open>.get\<close>.
\<close>

definition select_reset_record :: "db \<Rightarrow> string \<Rightarrow> string \<Rightarrow> reset_token option" where
  "select_reset_record d tok now =
     find (\<lambda>t. prt_token t = tok \<and> text_less now (prt_expires_at t) \<and>
                user_by_id d (prt_user_id t) \<noteq> None)
       (password_reset_tokens d)"

text \<open>
  What one \<open>POST /reset-password\<close> reads from outside the database: the three body
  fields and SQLite's \<open>datetime('now')\<close>. \<open>hashPassword\<close> (bcrypt, from
  \<open>modules/password-utils\<close>) is a parameter. \<open>password.length\<close> is \<open>js_length\<close>.
\<close>

record reset_request =
  rp_token :: "string option"
  rp_password :: "string option"
  rp_confirmPassword :: "string option"
  datetime_now :: string

definition reset_password :: "(string \<Rightarrow> string) \<Rightarrow> reset_request \<Rightarrow> db \<Rightarrow> response \<times> db" where
  "reset_password hashPassword r d =
     (if \<not> truthy (rp_token r) \<or> \<not> truthy (rp_password r) \<or> \<not> truthy (rp_confirmPassword r)
      then (RenderResetPassword (rp_token r) (Some ''All fields are required'') False, d)
      else if rp_password r \<noteq> rp_confirmPassword r
      then (RenderResetPassword (rp_token r) (Some ''Passwords do not match'') False, d)
      else if js_length (the (rp_password r)) < 8
      then (RenderResetPassword (rp_token r)
              (Some ''Password must be at least 8 characters long'') False, d)
      else
        case select_reset_record d (the (rp_token r)) (datetime_now r) of
          None \<Rightarrow> (RenderResetPassword None None True, d)
        | Some resetRecord \<Rightarrow>
            (Redirect ''/login?reset=success'',
             (update_user (prt_user_id resetRecord)
                (\<lambda>u. u\<lparr>password_hash := hashPassword (the (rp_password r))\<rparr>) d)
             \<lparr>password_reset_tokens :=
                filter (\<lambda>t. prt_token t \<noteq> the (rp_token r)) (password_reset_tokens d),
              sessions :=
                filter (\<lambda>s. sess_user_id s \<noteq> prt_user_id resetRecord) (sessions d)\<rparr>))"

text \<open>
  Modelled from the spec: the character classes of \<open>validatePassword\<close> in
  \<open>modules/password-utils\<close>, which is not among the sources; the policy asks for an
  uppercase letter, a lowercase letter and a digit (among others).
\<close>

definition is_uppercase :: "char \<Rightarrow> bool" where
  "is_uppercase c = (65 \<le> (of_char c :: nat) \<and> (of_char c :: nat) \<le> 90)"

definition is_digit :: "char \<Rightarrow> bool" where
  "is_digit c = (48 \<le> (of_char c :: nat) \<and> (of_char c :: nat) \<le> 57)"

section \<open>Chat (server.js)\<close>

text \<open>
  A connection is named by its \<open>socket.id\<close>. The state the handlers share is the
  membership of the room \<open>main-chat\<close> and the \<open>userData\<close> attached to each socket.
\<close>

record user_data =
  ud_id :: "int option"
  ud_username :: "string option"
  ud_displayName :: "string option"
  ud_profileColor :: "string option"
  ud_profileAvatar :: "string option"

record chat_state =
  room :: "string list"
  userData :: "string \<Rightarrow> user_data option"

record message_data =
  md_id :: int
  md_message :: string
  md_user_id :: int
  md_display_name :: string
  md_username :: string
  md_profile_color :: string
  md_profile_avatar :: string
  md_created_at :: string

datatype payload =
    MessageData message_data
  | Presence "string option" string
      \<comment> \<open>\<open>username\<close>, \<open>timestamp\<close>\<close>

datatype emission =
    ToRoomExcept string string payload
      \<comment> \<open>\<open>socket.to('main-chat').emit(event, payload)\<close>: sender, event, payload\<close>
  | ToSocket string string payload
      \<comment> \<open>\<open>socket.emit(event, payload)\<close>\<close>

text \<open>Who receives an emission, given the members of the room.\<close>

fun deliver :: "string list \<Rightarrow> emission \<Rightarrow> (string \<times> string \<times> payload) list" where
  "deliver members (ToRoomExcept sender ev p) =
     map (\<lambda>c. (c, ev, p)) (filter (\<lambda>c. c \<noteq> sender) members)"
| "deliver members (ToSocket sender ev p) = [(sender, ev, p)]"

definition deliveries :: "string list \<Rightarrow> emission list \<Rightarrow> (string \<times> string \<times> payload) list" where
  "deliveries members es = concat (map (deliver members) es)"

definition join_chat :: "string \<Rightarrow> string \<Rightarrow> user_data \<Rightarrow> chat_state \<Rightarrow> chat_state \<times> emission list" where
  "join_chat now sock ud st =
     (st\<lparr>userData := (userData st)(sock := Some ud),
         room := (if sock \<in> set (room st) then room st else room st @ [sock])\<rparr>,
      [ToRoomExcept sock ''user-joined''
         (Presence (js_or_opt (ud_displayName ud) (ud_username ud)) now)])"

text \<open>The \<open>disconnect\<close> handler reads \<open>socket.userData\<close> and writes nothing.\<close>

definition disconnect :: "string \<Rightarrow> string \<Rightarrow> chat_state \<Rightarrow> emission list" where
  "disconnect now sock st =
     (case userData st sock of
        None \<Rightarrow> []
      | Some ud \<Rightarrow>
          [ToRoomExcept sock ''user-left''
             (Presence (js_or_opt (ud_displayName ud) (ud_username ud)) now)])"

text \<open>
  An inbound \<open>chat-message\<close>: \<open>!userId\<close> holds for a missing id and for \<open>0\<close>. The
  default avatar is the UTF-8 text of U+1F464.
\<close>

record chat_request =
  cr_message :: "string option"
  cr_userId :: "int option"
  cr_now :: string

definition truthy_number :: "int option \<Rightarrow> bool" where
  "truthy_number v = (case v of None \<Rightarrow> False | Some i \<Rightarrow> i \<noteq> 0)"

definition default_avatar :: string where
  "default_avatar = [char_of (240::nat), char_of (159::nat), char_of (145::nat), char_of (164::nat)]"

definition chat_message :: "string \<Rightarrow> chat_request \<Rightarrow> db \<Rightarrow> db \<times> emission list" where
  "chat_message sock r d =
     (if \<not> truthy (cr_message r) \<or> \<not> truthy_number (cr_userId r) then (d, [])
      else
        let message = the (cr_message r); userId = the (cr_userId r) in
        case user_by_id d userId of
          None \<Rightarrow> (d, [])
        | Some u \<Rightarrow>
            let i = next_rowid (chat_seq d) (map cm_id (chat_messages d));
                messageData =
                  \<lparr>md_id = i, md_message = message, md_user_id = userId,
                   md_display_name = js_or (Some (display_name u)) (username u),
                   md_username = username u,
                   md_profile_color = js_or (profile_color u) ''#000000'',
                   md_profile_avatar = js_or (profile_avatar u) default_avatar,
                   md_created_at = cr_now r\<rparr>
            in (d\<lparr>chat_messages := chat_messages d @
                     [\<lparr>cm_id = i, cm_user_id = userId, cm_message = message\<rparr>],
                  chat_seq := i\<rparr>,
                [ToRoomExcept sock ''new-message'' (MessageData messageData),
                 ToSocket sock ''message-sent'' (MessageData messageData)]))"

section \<open>Auxiliary notions for the properties\<close>

text \<open>A user row after one failed credential check at time \<open>now\<close>.\<close>

definition after_failure :: "int \<Rightarrow> user \<Rightarrow> user" where
  "after_failure now u =
     (if failed_login_attempts u + 1 \<ge> 5
      then u\<lparr>failed_login_attempts := failed_login_attempts u + 1, is_locked := True,
             lockout_until := Some (now + 900000)\<rparr>
      else u\<lparr>failed_login_attempts := failed_login_attempts u + 1\<rparr>)"

definition failure_reason :: "user \<Rightarrow> string" where
  "failure_reason u =
     (if failed_login_attempts u + 1 \<ge> 5 then ''account_locked_after_attempts''
      else ''invalid_password'')"

text \<open>The ledger row of a failed attempt.\<close>

definition failed_entry :: "string \<Rightarrow> login_request \<Rightarrow> string \<Rightarrow> login_attempt" where
  "failed_entry n r reason =
     \<lparr>la_username = n, la_ip_address = req_ip r, la_success = False,
      la_failure_reason = Some reason\<rparr>"

text \<open>The update that clears an expired lock.\<close>

definition clear_lock :: "user \<Rightarrow> user" where
  "clear_lock u = u\<lparr>is_locked := False, lockout_until := None, failed_login_attempts := 0\<rparr>"

text \<open>Notions used to state the chat properties: an emission's event, what a
  connection receives, and the payload built for a message.\<close>

definition event_name :: "emission \<Rightarrow> string" where
  "event_name e = (case e of ToRoomExcept _ ev _ \<Rightarrow> ev | ToSocket _ ev _ \<Rightarrow> ev)"

definition user_left_events :: "emission list \<Rightarrow> emission list" where
  "user_left_events es = filter (\<lambda>e. event_name e = ''user-left'') es"

definition received_by :: "string \<Rightarrow> (string \<times> string \<times> payload) list \<Rightarrow> (string \<times> payload) list" where
  "received_by c ds = map snd (filter (\<lambda>x. fst x = c) ds)"

definition message_payload :: "chat_request \<Rightarrow> user \<Rightarrow> db \<Rightarrow> message_data" where
  "message_payload r u d =
     \<lparr>md_id = next_rowid (chat_seq d) (map cm_id (chat_messages d)),
      md_message = the (cr_message r), md_user_id = the (cr_userId r),
      md_display_name = js_or (Some (display_name u)) (username u),
      md_username = username u,
      md_profile_color = js_or (profile_color u) ''#000000'',
      md_profile_avatar = js_or (profile_avatar u) default_avatar,
      md_created_at = cr_now r\<rparr>"

section \<open>Example data\<close>

definition steve :: user where
  "steve =
     \<lparr>uid = 1, username = ''steve'', password_hash = ''$2b$steve'', email = ''steve@example.org'',
      display_name = ''Steve'', profile_color = None, profile_avatar = None,
      is_locked = False, lockout_until = None, failed_login_attempts = 0,
      last_login = None\<rparr>"

definition forum :: db where
  "forum =
     \<lparr>users = [steve], login_attempts = [], password_reset_tokens = [], prt_seq = 0,
      sessions = [], chat_messages = [], chat_seq = 0\<rparr>"

text \<open>A \<open>comparePassword\<close> that accepts steve's password against steve's hash only.\<close>

definition bcrypt_compare :: "string \<Rightarrow> string \<Rightarrow> bool" where
  "bcrypt_compare pw h = (pw = ''steve123'' \<and> h = ''$2b$steve'')"

definition attempt :: "string \<Rightarrow> int \<Rightarrow> login_request" where
  "attempt pw t =
     \<lparr>req_username = Some ''steve'', req_password = Some pw, req_ip = ''10.0.0.7'',
      now_check = t, now_failed = t + 80, current_timestamp = ''2025-12-01 10:00:00''\<rparr>"

definition locked_steve :: user where
  "locked_steve = steve\<lparr>is_locked := True, lockout_until := Some 905080, failed_login_attempts := 5\<rparr>"

definition steve_after_three :: user where
  "steve_after_three = steve\<lparr>failed_login_attempts := 3\<rparr>"

definition steve_token :: reset_token where
  "steve_token =
     \<lparr>prt_id = 1, prt_user_id = 1, prt_token = ''c0ffee'',
      prt_expires_at = ''2025-12-01T11:00:00.000Z'', prt_used = False\<rparr>"

definition forum_with_token :: db where
  "forum_with_token =
     forum\<lparr>password_reset_tokens := [steve_token], prt_seq := 1,
           sessions := [\<lparr>sess_id = ''sid-1'', sess_user_id = 1\<rparr>]\<rparr>"

definition submit :: "string \<Rightarrow> string \<Rightarrow> reset_request" where
  "submit pw confirm =
     \<lparr>rp_token = Some ''c0ffee'', rp_password = Some pw, rp_confirmPassword = Some confirm,
      datetime_now = ''2025-12-01 10:30:00''\<rparr>"

text \<open>Two U+1F512 characters: eight bytes, four UTF-16 code units.\<close>

definition two_padlocks :: string where
  "two_padlocks =
     [char_of (240::nat), char_of (159::nat), char_of (148::nat), char_of (146::nat),
      char_of (240::nat), char_of (159::nat), char_of (148::nat), char_of (146::nat)]"

definition bcrypt_hash :: "string \<Rightarrow> string" where
  "bcrypt_hash pw = ''$2b$'' @ pw"

definition forgot :: "string \<Rightarrow> string \<Rightarrow> forgot_request" where
  "forgot e tok =
     \<lparr>fp_email = Some e, resetToken = tok, expirationTime = ''2025-12-01T11:00:00.000Z'',
      emailResult_success = True\<rparr>"

definition steve_identity :: user_data where
  "steve_identity = \<lparr>ud_id = Some 1, ud_username = Some ''steve'', ud_displayName = Some ''Steve'',
            ud_profileColor = None, ud_profileAvatar = None\<rparr>"

definition lobby :: chat_state where
  "lobby = \<lparr>room = [''sock-b''], userData = (\<lambda>_. None)\<rparr>"

definition say :: "string option \<Rightarrow> int option \<Rightarrow> chat_request" where
  "say m i = \<lparr>cr_message = m, cr_userId = i, cr_now = ''2025-12-01T10:00:00.000Z''\<rparr>"

section \<open>Lookups and updates\<close>

declare decimal.simps [simp del]

lemma find_map_preserved:
  assumes "\<And>x. P (f x) = P x"
  shows "find P (map f xs) = map_option f (find P xs)"
  using assms by (induction xs) auto

lemma find_uid_distinct:
  "distinct (map uid us) \<Longrightarrow> find P us = Some u \<Longrightarrow> find (\<lambda>x. uid x = uid u) us = Some u"
proof (induction us)
  case Nil
  then show ?case by simp
next
  case (Cons a us)
  show ?case
  proof (cases "P a")
    case True
    with Cons.prems show ?thesis by simp
  next
    case False
    with Cons.prems have f: "find P us = Some u" and d: "distinct (map uid us)"
      and na: "uid a \<notin> uid ` set us" by auto
    from f have "u \<in> set us" by (auto simp: find_Some_iff)
    with na have "uid a \<noteq> uid u" by force
    with Cons.IH[OF d f] show ?thesis by simp
  qed
qed

lemma map_uid_update:
  assumes "\<And>x. uid (f x) = uid x"
  shows "map uid (users (update_user i f d)) = map uid (users d)"
  using assms by (simp add: update_user_def comp_def)

lemma map_upd_only:
  assumes "distinct (map uid us)" "find (\<lambda>x. uid x = i) us = Some u"
  shows "map (\<lambda>x. if uid x = i then f x else x) us = map (\<lambda>x. if uid x = i then f u else x) us"
proof -
  have "\<And>x. x \<in> set us \<Longrightarrow> uid x = i \<Longrightarrow> x = u"
  proof -
    fix x assume x: "x \<in> set us" and xi: "uid x = i"
    from assms(2) have "u \<in> set us" "uid u = i" by (auto simp: find_Some_iff)
    with assms(1) x xi show "x = u" by (metis distinct_map inj_on_def)
  qed
  then show ?thesis by (intro map_cong) auto
qed

lemma user_by_id_update:
  assumes "\<And>x. uid (f x) = uid x"
  shows "user_by_id (update_user i f d) j =
           map_option (\<lambda>x. if uid x = i then f x else x) (user_by_id d j)"
  unfolding user_by_id_def update_user_def
  by (simp add: find_map_preserved assms)

lemma user_by_username_update:
  assumes "\<And>x. username (f x) = username x"
  shows "user_by_username (update_user i f d) n =
           map_option (\<lambda>x. if uid x = i then f x else x) (user_by_username d n)"
  unfolding user_by_username_def update_user_def
  by (simp add: find_map_preserved assms)

lemma user_by_id_uid: "user_by_id d i = Some u \<Longrightarrow> uid u = i"
  by (auto simp: user_by_id_def find_Some_iff)

lemma update_user_twice:
  assumes "\<And>x. uid (f x) = uid x"
  shows "update_user i g (update_user i f d) = update_user i (g \<circ> f) d"
  by (simp add: update_user_def assms comp_def cong: if_cong)

lemma update_user_only:
  assumes "distinct (map uid (users d))" "user_by_id d i = Some u"
  shows "update_user i f d = update_user i (\<lambda>_. f u) d"
  using map_upd_only[OF assms(1) assms(2)[unfolded user_by_id_def], of f]
  by (simp add: update_user_def)

lemma handleFailedLogin_eq:
  assumes "distinct (map uid (users d))" "user_by_id d i = Some u"
  shows "handleFailedLogin now i n ip d =
           logLoginAttempt n ip False (failure_reason u) (update_user i (after_failure now) d)"
proof -
  let ?inc = "\<lambda>u. u\<lparr>failed_login_attempts := failed_login_attempts u + 1\<rparr>"
  let ?lock = "\<lambda>u. u\<lparr>is_locked := True, lockout_until := Some (now + 15 * 60 * 1000)\<rparr>"
  have ui: "uid u = i" using assms(2) by (rule user_by_id_uid)
  have 1: "user_by_id (update_user i ?inc d) i = Some (?inc u)"
    by (simp add: user_by_id_update assms(2) ui)
  have 2: "update_user i ?lock (update_user i ?inc d) = update_user i (?lock \<circ> ?inc) d"
    by (rule update_user_twice) simp
  have 3: "update_user i (?lock \<circ> ?inc) d = update_user i (\<lambda>_. (?lock \<circ> ?inc) u) d"
    by (rule update_user_only[OF assms])
  have 4: "update_user i ?inc d = update_user i (\<lambda>_. ?inc u) d"
    by (rule update_user_only[OF assms])
  have 5: "update_user i (after_failure now) d = update_user i (\<lambda>_. after_failure now u) d"
    by (rule update_user_only[OF assms])
  show ?thesis
  proof (cases "failed_login_attempts u + 1 \<ge> 5")
    case True
    then show ?thesis
      unfolding handleFailedLogin_def Let_def 1 5
      using 2 3 by (simp add: failure_reason_def after_failure_def)
  next
    case False
    then show ?thesis
      unfolding handleFailedLogin_def Let_def 1 5
      using 4 by (simp add: failure_reason_def after_failure_def)
  qed
qed


lemma user_by_username_id:
  "distinct (map uid (users d)) \<Longrightarrow> user_by_username d n = Some u \<Longrightarrow> user_by_id d (uid u) = Some u"
  unfolding user_by_username_def user_by_id_def by (rule find_uid_distinct)

lemma login_wrong_password:
  assumes "distinct (map uid (users d))" and "user_by_username d n = Some u"
    and "\<not> is_locked u"
    and "req_username r = Some n" "n \<noteq> []" "req_password r = Some pw" "pw \<noteq> []"
    and "\<not> cmp pw (password_hash u)"
  shows "login cmp r d =
           (RedirectLoginError ''Invalid username or password'', None,
            logLoginAttempt n (req_ip r) False (failure_reason u)
              (update_user (uid u) (after_failure (now_failed r)) d))"
  using assms
  by (simp add: login_def truthy_def check_credentials_def
        handleFailedLogin_eq[OF assms(1) user_by_username_id[OF assms(1,2)]])

lemma failed_state:
  assumes "distinct (map uid (users d))" and "user_by_username d n = Some u"
  shows "distinct (map uid (users (logLoginAttempt m ip ok reason
            (update_user (uid u) (after_failure t) d))))"
    and "user_by_username (logLoginAttempt m ip ok reason
            (update_user (uid u) (after_failure t) d)) n = Some (after_failure t u)"
proof -
  have a: "\<And>x. uid (after_failure t x) = uid x" "\<And>x. username (after_failure t x) = username x"
    by (simp_all add: after_failure_def)
  show "distinct (map uid (users (logLoginAttempt m ip ok reason
            (update_user (uid u) (after_failure t) d))))"
    using assms(1) by (simp add: logLoginAttempt_def map_uid_update a)
  have "user_by_username (update_user (uid u) (after_failure t) d) n = Some (after_failure t u)"
    by (simp add: user_by_username_update a assms(2))
  then show "user_by_username (logLoginAttempt m ip ok reason
            (update_user (uid u) (after_failure t) d)) n = Some (after_failure t u)"
    by (simp add: user_by_username_def logLoginAttempt_def)
qed

lemma login_locked:
  assumes "user_by_username d n = Some u" and "is_locked u" and "lockout_until u = Some l"
    and "req_username r = Some n" "n \<noteq> []" "truthy (req_password r)"
    and "now_check r < l"
  shows "login cmp r d =
           (RedirectLoginError
              (''Account is locked. Try again in '' @
               number_string (ceil_div (l - now_check r) 60000) @ '' minutes.''),
            None, logLoginAttempt n (req_ip r) False ''account_locked'' d)"
  using assms by (simp add: login_def truthy_def)

section \<open>Lockout after five failures\<close>

lemma five_failures_state:
  assumes ids: "distinct (map uid (users d))"
    and u: "user_by_username d n = Some u"
    and active: "\<not> is_locked u" "failed_login_attempts u = 0"
    and n: "n \<noteq> []"
    and r1: "req_username r1 = Some n" "req_password r1 = Some p1" "p1 \<noteq> []" "\<not> cmp p1 (password_hash u)"
    and r2: "req_username r2 = Some n" "req_password r2 = Some p2" "p2 \<noteq> []" "\<not> cmp p2 (password_hash u)"
    and r3: "req_username r3 = Some n" "req_password r3 = Some p3" "p3 \<noteq> []" "\<not> cmp p3 (password_hash u)"
    and r4: "req_username r4 = Some n" "req_password r4 = Some p4" "p4 \<noteq> []" "\<not> cmp p4 (password_hash u)"
    and r5: "req_username r5 = Some n" "req_password r5 = Some p5" "p5 \<noteq> []" "\<not> cmp p5 (password_hash u)"
    and r6: "req_username r6 = Some n" "truthy (req_password r6)"
      "now_check r6 < now_failed r5 + 15 * 60 * 1000"
    and d5: "d5 = snd (login_seq cmp [r1, r2, r3, r4, r5] d)"
  shows "fst (login_seq cmp [r1, r2, r3, r4, r5] d) =
           replicate 5 (RedirectLoginError ''Invalid username or password'')"
    and "user_by_username d5 n =
           Some (u\<lparr>failed_login_attempts := 5, is_locked := True,
                   lockout_until := Some (now_failed r5 + 15 * 60 * 1000)\<rparr>)"
    and "login_attempts d5 = login_attempts d @
           [failed_entry n r1 ''invalid_password'', failed_entry n r2 ''invalid_password'',
            failed_entry n r3 ''invalid_password'', failed_entry n r4 ''invalid_password'',
            failed_entry n r5 ''account_locked_after_attempts'']"
    and "login cmp r6 d5 =
           (RedirectLoginError
              (''Account is locked. Try again in '' @
               number_string (ceil_div (now_failed r5 + 15 * 60 * 1000 - now_check r6) (1000 * 60)) @
               '' minutes.''),
            None, logLoginAttempt n (req_ip r6) False ''account_locked'' d5)"
    and "users (snd (snd (login cmp r6 d5))) = users d5"
proof -
  define u1 where "u1 = after_failure (now_failed r1) u"
  define u2 where "u2 = after_failure (now_failed r2) u1"
  define u3 where "u3 = after_failure (now_failed r3) u2"
  define u4 where "u4 = after_failure (now_failed r4) u3"
  define u5 where "u5 = after_failure (now_failed r5) u4"
  define e1 where "e1 = logLoginAttempt n (req_ip r1) False (failure_reason u)
                         (update_user (uid u) (after_failure (now_failed r1)) d)"
  define e2 where "e2 = logLoginAttempt n (req_ip r2) False (failure_reason u1)
                         (update_user (uid u1) (after_failure (now_failed r2)) e1)"
  define e3 where "e3 = logLoginAttempt n (req_ip r3) False (failure_reason u2)
                         (update_user (uid u2) (after_failure (now_failed r3)) e2)"
  define e4 where "e4 = logLoginAttempt n (req_ip r4) False (failure_reason u3)
                         (update_user (uid u3) (after_failure (now_failed r4)) e3)"
  define e5 where "e5 = logLoginAttempt n (req_ip r5) False (failure_reason u4)
                         (update_user (uid u4) (after_failure (now_failed r5)) e4)"
  have v1: "u1 = u\<lparr>failed_login_attempts := 1\<rparr>"
    using active by (simp add: u1_def after_failure_def)
  have v2: "u2 = u\<lparr>failed_login_attempts := 2\<rparr>"
    by (simp add: u2_def v1 after_failure_def)
  have v3: "u3 = u\<lparr>failed_login_attempts := 3\<rparr>"
    by (simp add: u3_def v2 after_failure_def)
  have v4: "u4 = u\<lparr>failed_login_attempts := 4\<rparr>"
    by (simp add: u4_def v3 after_failure_def)
  have v5: "u5 = u\<lparr>failed_login_attempts := 5, is_locked := True,
                    lockout_until := Some (now_failed r5 + 900000)\<rparr>"
    by (simp add: u5_def v4 after_failure_def)
  have s1: "distinct (map uid (users e1))" "user_by_username e1 n = Some u1"
    unfolding e1_def u1_def by (rule failed_state[OF ids u])+
  have s2: "distinct (map uid (users e2))" "user_by_username e2 n = Some u2"
    unfolding e2_def u2_def by (rule failed_state[OF s1])+
  have s3: "distinct (map uid (users e3))" "user_by_username e3 n = Some u3"
    unfolding e3_def u3_def by (rule failed_state[OF s2])+
  have s4: "distinct (map uid (users e4))" "user_by_username e4 n = Some u4"
    unfolding e4_def u4_def by (rule failed_state[OF s3])+
  have s5: "distinct (map uid (users e5))" "user_by_username e5 n = Some u5"
    unfolding e5_def u5_def by (rule failed_state[OF s4])+
  have l1: "login cmp r1 d = (RedirectLoginError ''Invalid username or password'', None, e1)"
    unfolding e1_def
    by (rule login_wrong_password[OF ids u active(1) r1(1) n r1(2,3)]) (rule r1(4))
  have l2: "login cmp r2 e1 = (RedirectLoginError ''Invalid username or password'', None, e2)"
    unfolding e2_def
    by (rule login_wrong_password[OF s1 _ r2(1) n r2(2,3)]) (simp_all add: v1 active r2)
  have l3: "login cmp r3 e2 = (RedirectLoginError ''Invalid username or password'', None, e3)"
    unfolding e3_def
    by (rule login_wrong_password[OF s2 _ r3(1) n r3(2,3)]) (simp_all add: v2 active r3)
  have l4: "login cmp r4 e3 = (RedirectLoginError ''Invalid username or password'', None, e4)"
    unfolding e4_def
    by (rule login_wrong_password[OF s3 _ r4(1) n r4(2,3)]) (simp_all add: v3 active r4)
  have l5: "login cmp r5 e4 = (RedirectLoginError ''Invalid username or password'', None, e5)"
    unfolding e5_def
    by (rule login_wrong_password[OF s4 _ r5(1) n r5(2,3)]) (simp_all add: v4 active r5)
  have seq: "login_seq cmp [r1, r2, r3, r4, r5] d =
               (replicate 5 (RedirectLoginError ''Invalid username or password''), e5)"
    by (simp add: l1 l2 l3 l4 l5 numeral_eq_Suc)
  show "fst (login_seq cmp [r1, r2, r3, r4, r5] d) =
           replicate 5 (RedirectLoginError ''Invalid username or password'')"
    by (simp only: seq fst_conv)
  have d5e: "d5 = e5" by (simp only: d5 seq snd_conv)
  show "user_by_username d5 n =
           Some (u\<lparr>failed_login_attempts := 5, is_locked := True,
                   lockout_until := Some (now_failed r5 + 15 * 60 * 1000)\<rparr>)"
    by (simp add: d5e s5 v5)
  have f: "failure_reason u = ''invalid_password''" "failure_reason u1 = ''invalid_password''"
    "failure_reason u2 = ''invalid_password''" "failure_reason u3 = ''invalid_password''"
    "failure_reason u4 = ''account_locked_after_attempts''"
    using active by (simp_all add: failure_reason_def v1 v2 v3 v4)
  show "login_attempts d5 = login_attempts d @
           [failed_entry n r1 ''invalid_password'', failed_entry n r2 ''invalid_password'',
            failed_entry n r3 ''invalid_password'', failed_entry n r4 ''invalid_password'',
            failed_entry n r5 ''account_locked_after_attempts'']"
    unfolding d5e e5_def e4_def e3_def e2_def e1_def f
    by (simp add: logLoginAttempt_def update_user_def failed_entry_def)
  have lk: "login cmp r6 e5 =
           (RedirectLoginError
              (''Account is locked. Try again in '' @
               number_string (ceil_div (now_failed r5 + 900000 - now_check r6) 60000) @
               '' minutes.''),
            None, logLoginAttempt n (req_ip r6) False ''account_locked'' e5)"
    by (rule login_locked[OF s5(2) _ _ r6(1) n r6(2)]) (use r6(3) in \<open>simp_all add: v5\<close>)
  then show "login cmp r6 d5 =
           (RedirectLoginError
              (''Account is locked. Try again in '' @
               number_string (ceil_div (now_failed r5 + 15 * 60 * 1000 - now_check r6) (1000 * 60)) @
               '' minutes.''),
            None, logLoginAttempt n (req_ip r6) False ''account_locked'' d5)"
    by (simp add: d5e)
  show "users (snd (snd (login cmp r6 d5))) = users d5"
    by (simp add: d5e lk logLoginAttempt_def)
qed

lemma number_string_14: "number_string 14 = ''14''"
  by code_simp

text \<open>
  C2, as stated for every unlocked user, fails: the lock is decided by the counter
  and not by the number of attempts just made. An unlocked user with three failures
  on record is locked by the second of five wrong passwords, so \<open>lockout_until\<close> is
  fifteen minutes after the second failure and not after the fifth; the remaining
  three attempts are rejected as locked.
\<close>

theorem lock_before_fifth_failure_counterexample:
  "\<not> is_locked steve_after_three \<and>
   user_by_username
     (snd (login_seq bcrypt_compare
        [attempt ''a'' 1000, attempt ''b'' 2000, attempt ''c'' 3000, attempt ''d'' 4000,
         attempt ''e'' 5000] (forum\<lparr>users := [steve_after_three]\<rparr>))) ''steve'' =
     Some (steve\<lparr>failed_login_attempts := 5, is_locked := True,
                 lockout_until := Some (now_failed (attempt ''b'' 2000) + 15 * 60 * 1000)\<rparr>) \<and>
   user_by_username
     (snd (login_seq bcrypt_compare
        [attempt ''a'' 1000, attempt ''b'' 2000, attempt ''c'' 3000, attempt ''d'' 4000,
         attempt ''e'' 5000] (forum\<lparr>users := [steve_after_three]\<rparr>))) ''steve'' \<noteq>
     Some (steve\<lparr>failed_login_attempts := 5, is_locked := True,
                 lockout_until := Some (now_failed (attempt ''e'' 5000) + 15 * 60 * 1000)\<rparr>)"
  by (simp add: login_def check_credentials_def handleFailedLogin_def update_user_def
        user_by_username_def user_by_id_def logLoginAttempt_def attempt_def bcrypt_compare_def
        forum_def steve_def steve_after_three_def truthy_def Let_def)

text \<open>
  C2, amended. A user who is not locked and has no failed attempt on record makes five
  login attempts with a wrong password. Every one is answered with the generic error;
  after the fifth the user's row has \<open>failed_login_attempts = 5\<close>, \<open>is_locked\<close> set and
  \<open>lockout_until\<close> fifteen minutes after the time read at the fifth failure, and the
  ledger has gained four \<open>invalid_password\<close> rows and one
  \<open>account_locked_after_attempts\<close> row. A further attempt whose lock check happens
  before \<open>lockout_until\<close> is answered with the remaining minutes, adds one
  \<open>account_locked\<close> row and leaves the users table, hence the counter, as it was.
\<close>

theorem five_failed_logins_lock:
  assumes "distinct (map uid (users d))"
    and "user_by_username d n = Some u"
    and "\<not> is_locked u" "failed_login_attempts u = 0"
    and "n \<noteq> []"
    and "req_username ra = Some n" "req_password ra = Some pa" "pa \<noteq> []" "\<not> cmp pa (password_hash u)"
    and "req_username rb = Some n" "req_password rb = Some pb" "pb \<noteq> []" "\<not> cmp pb (password_hash u)"
    and "req_username rc = Some n" "req_password rc = Some pc" "pc \<noteq> []" "\<not> cmp pc (password_hash u)"
    and "req_username rd = Some n" "req_password rd = Some pd" "pd \<noteq> []" "\<not> cmp pd (password_hash u)"
    and "req_username re = Some n" "req_password re = Some pe" "pe \<noteq> []" "\<not> cmp pe (password_hash u)"
    and "req_username rf = Some n" "truthy (req_password rf)"
      "now_check rf < now_failed re + 15 * 60 * 1000"
    and "d' = snd (login_seq cmp [ra, rb, rc, rd, re] d)"
  shows "fst (login_seq cmp [ra, rb, rc, rd, re] d) =
           replicate 5 (RedirectLoginError ''Invalid username or password'') \<and>
         user_by_username d' n =
           Some (u\<lparr>failed_login_attempts := 5, is_locked := True,
                   lockout_until := Some (now_failed re + 15 * 60 * 1000)\<rparr>) \<and>
         login_attempts d' = login_attempts d @
           [failed_entry n ra ''invalid_password'', failed_entry n rb ''invalid_password'',
            failed_entry n rc ''invalid_password'', failed_entry n rd ''invalid_password'',
            failed_entry n re ''account_locked_after_attempts''] \<and>
         login cmp rf d' =
           (RedirectLoginError
              (''Account is locked. Try again in '' @
               number_string (ceil_div (now_failed re + 15 * 60 * 1000 - now_check rf) (1000 * 60)) @
               '' minutes.''),
            None, logLoginAttempt n (req_ip rf) False ''account_locked'' d') \<and>
         users (snd (snd (login cmp rf d'))) = users d'"
  by (intro conjI) (rule five_failures_state[OF assms])+

theorem five_failed_logins_lock_witness:
  "user_by_username
     (snd (login_seq bcrypt_compare
        [attempt ''a'' 1000, attempt ''b'' 2000, attempt ''c'' 3000, attempt ''d'' 4000,
         attempt ''e'' 5000] forum)) ''steve'' =
     Some (steve\<lparr>failed_login_attempts := 5, is_locked := True,
                 lockout_until := Some 905080\<rparr>) \<and>
   fst (login bcrypt_compare (attempt ''steve123'' 65081)
     (snd (login_seq bcrypt_compare
        [attempt ''a'' 1000, attempt ''b'' 2000, attempt ''c'' 3000, attempt ''d'' 4000,
         attempt ''e'' 5000] forum))) =
     RedirectLoginError ''Account is locked. Try again in 14 minutes.''"
proof -
  have ids: "distinct (map uid (users forum))" by (simp add: forum_def)
  have u: "user_by_username forum ''steve'' = Some steve"
    by (simp add: user_by_username_def forum_def steve_def)
  have a: "\<not> is_locked steve" "failed_login_attempts steve = 0" by (simp_all add: steve_def)
  have c: "\<And>p. p \<noteq> ''steve123'' \<Longrightarrow> \<not> bcrypt_compare p (password_hash steve)"
    by (simp add: bcrypt_compare_def)
  note t = five_failed_logins_lock[where cmp = bcrypt_compare and d = forum and n = "''steve''"
      and u = steve and ra = "attempt ''a'' 1000" and rb = "attempt ''b'' 2000"
      and rc = "attempt ''c'' 3000" and rd = "attempt ''d'' 4000" and re = "attempt ''e'' 5000"
      and rf = "attempt ''steve123'' 65081"
      and pa = "''a''" and pb = "''b''" and pc = "''c''" and pd = "''d''" and pe = "''e''",
      OF ids u a _ _ _ _ c _ _ _ c _ _ _ c _ _ _ c _ _ _ c _ _ _ refl]
  have "ceil_div (now_failed (attempt ''e'' 5000) + 15 * 60 * 1000 - now_check (attempt ''steve123'' 65081)) (1000 * 60) = 14"
    by (simp add: attempt_def ceil_div_def)
  with t show ?thesis
    by (simp add: attempt_def truthy_def number_string_14)
qed


section \<open>Expired lockout\<close>

lemma check_credentials_cong:
  assumes "uid u' = uid u" "username u' = username u" "display_name u' = display_name u"
    "password_hash u' = password_hash u"
  shows "check_credentials cmp r n pw u' d = check_credentials cmp r n pw u d"
  by (simp add: check_credentials_def assms)

lemma user_by_username_uid:
  "user_by_username d n = Some u \<Longrightarrow> username u = n"
  by (auto simp: user_by_username_def find_Some_iff)

lemma login_after_expiry:
  assumes "user_by_username d n = Some u" "is_locked u" "lockout_until u = Some l"
    "l \<le> now_check r" "req_username r = Some n" "n \<noteq> []" "req_password r = Some pw" "pw \<noteq> []"
  shows "login cmp r d = check_credentials cmp r n pw u (update_user (uid u) clear_lock d)"
proof -
  have "clear_lock = (\<lambda>u. u\<lparr>is_locked := False, lockout_until := None, failed_login_attempts := 0\<rparr>)"
    by (rule ext) (simp add: clear_lock_def)
  with assms show ?thesis by (simp add: login_def truthy_def)
qed

lemma cleared_lookup:
  assumes "user_by_username d n = Some u"
  shows "user_by_username (update_user (uid u) clear_lock d) n = Some (clear_lock u)"
  by (simp add: user_by_username_update clear_lock_def assms)

lemma login_unlocked:
  assumes "user_by_username d n = Some u" "\<not> is_locked u"
    "req_username r = Some n" "n \<noteq> []" "req_password r = Some pw" "pw \<noteq> []"
  shows "login cmp r d = check_credentials cmp r n pw u d"
  using assms by (simp add: login_def truthy_def)

text \<open>
  C3. A locked user attempts to log in at a time at or after \<open>lockout_until\<close>. The
  request is handled exactly as on the database in which the lock has been cleared
  (\<open>is_locked\<close> false, \<open>lockout_until\<close> null, \<open>failed_login_attempts\<close> zero); the answer
  depends on \<open>comparePassword\<close> alone; and afterwards the user's row is unlocked, with
  a counter of 0 after a correct password and of 1 after a wrong one.
\<close>

theorem expired_lock_clears:
  assumes "distinct (map uid (users d))"
    and "user_by_username d n = Some u" "is_locked u" "lockout_until u = Some l"
    and "l \<le> now_check r"
    and "req_username r = Some n" "n \<noteq> []" "req_password r = Some pw" "pw \<noteq> []"
  shows "login cmp r d = login cmp r (update_user (uid u) clear_lock d) \<and>
         user_by_username (update_user (uid u) clear_lock d) n =
           Some (u\<lparr>is_locked := False, lockout_until := None, failed_login_attempts := 0\<rparr>) \<and>
         fst (login cmp r d) =
           (if cmp pw (password_hash u)
            then RedirectLoginSuccess (js_or (Some (display_name u)) (username u))
            else RedirectLoginError ''Invalid username or password'') \<and>
         user_by_username (snd (snd (login cmp r d))) n =
           Some (if cmp pw (password_hash u)
                 then u\<lparr>is_locked := False, lockout_until := None, failed_login_attempts := 0,
                        last_login := Some (current_timestamp r)\<rparr>
                 else u\<lparr>is_locked := False, lockout_until := None, failed_login_attempts := 1\<rparr>)"
proof -
  let ?d = "update_user (uid u) clear_lock d"
  have L: "login cmp r d = check_credentials cmp r n pw u ?d"
    by (rule login_after_expiry[OF assms(2-9)])
  have cu: "user_by_username ?d n = Some (clear_lock u)"
    by (rule cleared_lookup[OF assms(2)])
  have ids: "distinct (map uid (users ?d))"
    using assms(1) by (simp add: map_uid_update clear_lock_def)
  have R: "login cmp r ?d = check_credentials cmp r n pw (clear_lock u) ?d"
    by (rule login_unlocked[OF cu _ assms(6-9)]) (simp add: clear_lock_def)
  have C: "check_credentials cmp r n pw (clear_lock u) ?d = check_credentials cmp r n pw u ?d"
    by (rule check_credentials_cong) (simp_all add: clear_lock_def)
  have 1: "login cmp r d = login cmp r ?d" by (simp only: L R C)
  have 2: "user_by_username ?d n =
           Some (u\<lparr>is_locked := False, lockout_until := None, failed_login_attempts := 0\<rparr>)"
    using cu by (simp add: clear_lock_def)
  have 3: "fst (login cmp r d) =
           (if cmp pw (password_hash u)
            then RedirectLoginSuccess (js_or (Some (display_name u)) (username u))
            else RedirectLoginError ''Invalid username or password'')"
    by (simp add: L check_credentials_def)
  have 4: "user_by_username (snd (snd (login cmp r d))) n =
           Some (if cmp pw (password_hash u)
                 then u\<lparr>is_locked := False, lockout_until := None, failed_login_attempts := 0,
                        last_login := Some (current_timestamp r)\<rparr>
                 else u\<lparr>is_locked := False, lockout_until := None, failed_login_attempts := 1\<rparr>)"
  proof (cases "cmp pw (password_hash u)")
    case True
    have "user_by_username (update_user (uid u)
             (\<lambda>u. u\<lparr>last_login := Some (current_timestamp r), failed_login_attempts := 0,
                     is_locked := False, lockout_until := None\<rparr>) ?d) n =
          Some (u\<lparr>is_locked := False, lockout_until := None, failed_login_attempts := 0,
                        last_login := Some (current_timestamp r)\<rparr>)"
      by (simp add: user_by_username_update cu) (simp add: clear_lock_def)
    with True show ?thesis
      by (simp add: L check_credentials_def logLoginAttempt_def user_by_username_def)
  next
    case False
    have i: "user_by_id ?d (uid u) = Some (clear_lock u)"
      using user_by_username_id[OF ids cu] by (simp add: clear_lock_def)
    have uc: "uid (clear_lock u) = uid u" by (simp add: clear_lock_def)
    have "user_by_username (handleFailedLogin (now_failed r) (uid u) n (req_ip r) ?d) n =
            Some (after_failure (now_failed r) (clear_lock u))"
      unfolding handleFailedLogin_eq[OF ids i]
      using failed_state(2)[OF ids cu, of n "req_ip r" False "failure_reason (clear_lock u)" "now_failed r"]
      by (simp add: uc)
    with False show ?thesis
      by (simp add: L check_credentials_def after_failure_def clear_lock_def)
  qed
  from 1 2 3 4 show ?thesis by (intro conjI)
qed

theorem expired_lock_clears_witness:
  "fst (login bcrypt_compare (attempt ''steve123'' 905080) (forum\<lparr>users := [locked_steve]\<rparr>)) =
     RedirectLoginSuccess ''Steve'' \<and>
   user_by_username
     (snd (snd (login bcrypt_compare (attempt ''wrong'' 905080) (forum\<lparr>users := [locked_steve]\<rparr>))))
     ''steve'' =
     Some (locked_steve\<lparr>is_locked := False, lockout_until := None, failed_login_attempts := 1\<rparr>)"
proof -
  let ?d = "forum\<lparr>users := [locked_steve]\<rparr>"
  have ids: "distinct (map uid (users ?d))" by simp
  have u: "user_by_username ?d ''steve'' = Some locked_steve"
    by (simp add: user_by_username_def locked_steve_def steve_def)
  have l: "is_locked locked_steve" "lockout_until locked_steve = Some 905080"
    by (simp_all add: locked_steve_def)
  have le: "\<And>pw. 905080 \<le> now_check (attempt pw 905080)" by (simp add: attempt_def)
  have ru: "\<And>pw t. req_username (attempt pw t) = Some ''steve''" by (simp add: attempt_def)
  have rp: "\<And>pw t. req_password (attempt pw t) = Some pw" by (simp add: attempt_def)
  have ne: "''steve'' \<noteq> []" "''steve123'' \<noteq> []" "''wrong'' \<noteq> []" by simp_all
  note ok = expired_lock_clears[OF ids u l le ru ne(1) rp ne(2), of bcrypt_compare]
  note bad = expired_lock_clears[OF ids u l le ru ne(1) rp ne(3), of bcrypt_compare]
  have yes: "bcrypt_compare ''steve123'' (password_hash locked_steve)"
    and no: "\<not> bcrypt_compare ''wrong'' (password_hash locked_steve)"
    by (simp_all add: bcrypt_compare_def locked_steve_def steve_def)
  have name: "js_or (Some (display_name locked_steve)) (username locked_steve) = ''Steve''"
    by (simp add: js_or_def locked_steve_def steve_def)
  have "fst (login bcrypt_compare (attempt ''steve123'' 905080) ?d) = RedirectLoginSuccess ''Steve''"
    using ok[THEN conjunct2, THEN conjunct2, THEN conjunct1] yes name by (simp only: if_True)
  moreover have "user_by_username (snd (snd (login bcrypt_compare (attempt ''wrong'' 905080) ?d))) ''steve'' =
     Some (locked_steve\<lparr>is_locked := False, lockout_until := None, failed_login_attempts := 1\<rparr>)"
    using bad[THEN conjunct2, THEN conjunct2, THEN conjunct2] no by (simp only: if_False)
  ultimately show ?thesis by (rule conjI)
qed

section \<open>Consuming a reset token\<close>

lemma js_length_Nil: "js_length [] = 0"
  by (simp add: js_length_def)

lemma select_reset_record_Some:
  assumes "select_reset_record d tok now = Some t"
  shows "prt_token t = tok" "text_less now (prt_expires_at t)" "user_by_id d (prt_user_id t) \<noteq> None"
    "t \<in> set (password_reset_tokens d)"
  using assms by (auto simp: select_reset_record_def find_Some_iff)

lemma select_after_delete:
  "select_reset_record
     (d\<lparr>password_reset_tokens := filter (\<lambda>t. prt_token t \<noteq> tok) (password_reset_tokens d)\<rparr>)
     tok now = None"
  by (simp add: select_reset_record_def find_None_iff)

lemma reset_password_success:
  assumes "rp_token r = Some tok" "tok \<noteq> []" "rp_password r = Some pw" "rp_confirmPassword r = Some pw"
    "8 \<le> js_length pw" "select_reset_record d tok (datetime_now r) = Some t"
  shows "reset_password h r d =
           (Redirect ''/login?reset=success'',
            (update_user (prt_user_id t) (\<lambda>u. u\<lparr>password_hash := h pw\<rparr>) d)
            \<lparr>password_reset_tokens := filter (\<lambda>t. prt_token t \<noteq> tok) (password_reset_tokens d),
              sessions := filter (\<lambda>s. sess_user_id s \<noteq> prt_user_id t) (sessions d)\<rparr>)"
  using assms by (auto simp: reset_password_def truthy_def js_length_Nil)

lemma select_steve_token:
  "select_reset_record forum_with_token ''c0ffee'' ''2025-12-01 10:30:00'' = Some steve_token"
  by (simp add: select_reset_record_def forum_with_token_def steve_token_def forum_def
        user_by_id_def steve_def)

text \<open>
  C4. A \<open>POST /reset-password\<close> whose fields are present, whose passwords agree and have
  a \<open>.length\<close> of at least eight, and whose token selects a live reset record: the answer
  is the redirect to the login page; the row of the token's user holds the hash of the
  new password; no row of the token remains; no session row of that user remains; and a
  second submission of the same token, whatever acceptable password it carries, is
  answered with the expired-token view and changes nothing.
\<close>

theorem reset_password_consumes_token:
  assumes "rp_token r = Some tok" "tok \<noteq> []"
    and "rp_password r = Some pw" "rp_confirmPassword r = Some pw" "8 \<le> js_length pw"
    and "select_reset_record d tok (datetime_now r) = Some t"
    and "d' = snd (reset_password h r d)"
    and "rp_token r' = Some tok" "rp_password r' = Some pw'" "rp_confirmPassword r' = Some pw'"
      "8 \<le> js_length pw'"
  shows "fst (reset_password h r d) = Redirect ''/login?reset=success'' \<and>
         users d' =
           map (\<lambda>u. if uid u = prt_user_id t then u\<lparr>password_hash := h pw\<rparr> else u) (users d) \<and>
         list_ex (\<lambda>u. uid u = prt_user_id t \<and> password_hash u = h pw) (users d') \<and>
         password_reset_tokens d' =
           filter (\<lambda>t. prt_token t \<noteq> tok) (password_reset_tokens d) \<and>
         \<not> list_ex (\<lambda>t. prt_token t = tok) (password_reset_tokens d') \<and>
         sessions d' = filter (\<lambda>s. sess_user_id s \<noteq> prt_user_id t) (sessions d) \<and>
         \<not> list_ex (\<lambda>s. sess_user_id s = prt_user_id t) (sessions d') \<and>
         reset_password h' r' d' = (RenderResetPassword None None True, d')"
proof -
  let ?e = "(update_user (prt_user_id t) (\<lambda>u. u\<lparr>password_hash := h pw\<rparr>) d)
            \<lparr>password_reset_tokens := filter (\<lambda>t. prt_token t \<noteq> tok) (password_reset_tokens d),
              sessions := filter (\<lambda>s. sess_user_id s \<noteq> prt_user_id t) (sessions d)\<rparr>"
  have R: "reset_password h r d = (Redirect ''/login?reset=success'', ?e)"
    by (rule reset_password_success[OF assms(1-6)])
  have e: "d' = ?e" by (simp only: assms(7) R snd_conv)
  have 1: "fst (reset_password h r d) = Redirect ''/login?reset=success''"
    by (simp only: R fst_conv)
  have 2: "users d' =
           map (\<lambda>u. if uid u = prt_user_id t then u\<lparr>password_hash := h pw\<rparr> else u) (users d)"
    by (simp add: e update_user_def)
  obtain u where u: "user_by_id d (prt_user_id t) = Some u"
    using select_reset_record_Some(3)[OF assms(6)] by auto
  then have "u \<in> set (users d)" "uid u = prt_user_id t"
    by (auto simp: user_by_id_def find_Some_iff)
  then have 3: "list_ex (\<lambda>u. uid u = prt_user_id t \<and> password_hash u = h pw) (users d')"
    unfolding 2 list_ex_iff by (intro bexI[where x="u\<lparr>password_hash := h pw\<rparr>"]) auto
  have 4: "password_reset_tokens d' =
           filter (\<lambda>t. prt_token t \<noteq> tok) (password_reset_tokens d)"
    by (simp add: e update_user_def)
  have 5: "\<not> list_ex (\<lambda>t. prt_token t = tok) (password_reset_tokens d')"
    by (simp add: 4 list_ex_iff)
  have 6: "sessions d' = filter (\<lambda>s. sess_user_id s \<noteq> prt_user_id t) (sessions d)"
    by (simp add: e update_user_def)
  have 7: "\<not> list_ex (\<lambda>s. sess_user_id s = prt_user_id t) (sessions d')"
    by (simp add: 6 list_ex_iff)
  have "select_reset_record d' tok (datetime_now r') = None"
    using 5 by (auto simp: select_reset_record_def find_None_iff list_ex_iff)
  then have 8: "reset_password h' r' d' = (RenderResetPassword None None True, d')"
    using assms(2,8-11) by (auto simp: reset_password_def truthy_def js_length_Nil)
  from 1 2 3 4 5 6 7 8 show ?thesis by (intro conjI)
qed

theorem reset_password_consumes_token_witness:
  "fst (reset_password bcrypt_hash (submit ''N3w!Passw'' ''N3w!Passw'') forum_with_token) =
     Redirect ''/login?reset=success'' \<and>
   users (snd (reset_password bcrypt_hash (submit ''N3w!Passw'' ''N3w!Passw'') forum_with_token)) =
     [steve\<lparr>password_hash := ''$2b$N3w!Passw''\<rparr>] \<and>
   password_reset_tokens
     (snd (reset_password bcrypt_hash (submit ''N3w!Passw'' ''N3w!Passw'') forum_with_token)) = [] \<and>
   sessions
     (snd (reset_password bcrypt_hash (submit ''N3w!Passw'' ''N3w!Passw'') forum_with_token)) = [] \<and>
   fst (reset_password bcrypt_hash (submit ''Again#123'' ''Again#123'')
     (snd (reset_password bcrypt_hash (submit ''N3w!Passw'' ''N3w!Passw'') forum_with_token))) =
     RenderResetPassword None None True"
proof -
  let ?r = "submit ''N3w!Passw'' ''N3w!Passw''"
  let ?d' = "snd (reset_password bcrypt_hash ?r forum_with_token)"
  have sel: "select_reset_record forum_with_token ''c0ffee'' (datetime_now ?r) = Some steve_token"
    using select_steve_token by (simp add: submit_def)
  note t = reset_password_consumes_token[where h = bcrypt_hash and h' = bcrypt_hash and r = ?r
      and r' = "submit ''Again#123'' ''Again#123''" and pw = "''N3w!Passw''"
      and pw' = "''Again#123''" and d = forum_with_token and d' = ?d', OF _ _ _ _ _ sel refl]
  have "fst (reset_password bcrypt_hash ?r forum_with_token) = Redirect ''/login?reset=success'' \<and>
         users ?d' =
           map (\<lambda>u. if uid u = prt_user_id steve_token then u\<lparr>password_hash := bcrypt_hash ''N3w!Passw''\<rparr> else u) (users forum_with_token) \<and>
         list_ex (\<lambda>u. uid u = prt_user_id steve_token \<and> password_hash u = bcrypt_hash ''N3w!Passw'') (users ?d') \<and>
         password_reset_tokens ?d' =
           filter (\<lambda>t. prt_token t \<noteq> ''c0ffee'') (password_reset_tokens forum_with_token) \<and>
         \<not> list_ex (\<lambda>t. prt_token t = ''c0ffee'') (password_reset_tokens ?d') \<and>
         sessions ?d' = filter (\<lambda>s. sess_user_id s \<noteq> prt_user_id steve_token) (sessions forum_with_token) \<and>
         \<not> list_ex (\<lambda>s. sess_user_id s = prt_user_id steve_token) (sessions ?d') \<and>
         reset_password bcrypt_hash (submit ''Again#123'' ''Again#123'') ?d' = (RenderResetPassword None None True, ?d')"
    by (rule t) (simp_all add: submit_def js_length_def utf16_units_def)
  then show ?thesis
    by (simp add: forum_with_token_def forum_def steve_def steve_token_def bcrypt_hash_def)
qed

text \<open>
  C10. A \<open>POST /reset-password\<close> that misses a field, whose passwords differ, whose
  password has a \<open>.length\<close> below eight, or whose token selects no live record is
  not answered with the success redirect and leaves the whole database (users, reset
  tokens, sessions) as it was.
\<close>

theorem reset_password_rejected_unchanged:
  assumes "\<not> truthy (rp_token r) \<or> \<not> truthy (rp_password r) \<or> \<not> truthy (rp_confirmPassword r) \<or>
           rp_password r \<noteq> rp_confirmPassword r \<or> js_length (the (rp_password r)) < 8 \<or>
           select_reset_record d (the (rp_token r)) (datetime_now r) = None"
  shows "snd (reset_password h r d) = d \<and>
         fst (reset_password h r d) \<noteq> Redirect ''/login?reset=success''"
  using assms by (auto simp: reset_password_def)

theorem reset_password_rejected_unchanged_witness:
  "reset_password bcrypt_hash (submit ''short'' ''short'') forum_with_token =
     (RenderResetPassword (Some ''c0ffee'')
        (Some ''Password must be at least 8 characters long'') False, forum_with_token) \<and>
   reset_password bcrypt_hash (submit two_padlocks two_padlocks) forum_with_token =
     (RenderResetPassword (Some ''c0ffee'')
        (Some ''Password must be at least 8 characters long'') False, forum_with_token)"
proof -
  have s: "js_length (the (rp_password (submit ''short'' ''short''))) < 8"
    by (simp add: submit_def js_length_def utf16_units_def)
  have p: "js_length (the (rp_password (submit two_padlocks two_padlocks))) < 8"
    by (simp add: submit_def js_length_def utf16_units_def two_padlocks_def)
  have ne: "two_padlocks \<noteq> []" by (simp add: two_padlocks_def)
  have 1: "snd (reset_password bcrypt_hash (submit ''short'' ''short'') forum_with_token) =
             forum_with_token"
    using reset_password_rejected_unchanged[OF disjI2, OF disjI2, OF disjI2, OF disjI2,
        OF disjI1, OF s] by (rule conjunct1)
  have 2: "snd (reset_password bcrypt_hash (submit two_padlocks two_padlocks) forum_with_token) =
             forum_with_token"
    using reset_password_rejected_unchanged[OF disjI2, OF disjI2, OF disjI2, OF disjI2,
        OF disjI1, OF p] by (rule conjunct1)
  have 3: "fst (reset_password bcrypt_hash (submit ''short'' ''short'') forum_with_token) =
     RenderResetPassword (Some ''c0ffee'') (Some ''Password must be at least 8 characters long'') False"
    using s by (simp add: reset_password_def submit_def truthy_def)
  have 4: "fst (reset_password bcrypt_hash (submit two_padlocks two_padlocks) forum_with_token) =
     RenderResetPassword (Some ''c0ffee'') (Some ''Password must be at least 8 characters long'') False"
    using p ne by (simp add: reset_password_def submit_def truthy_def)
  from 1 2 3 4 show ?thesis by (simp add: prod_eq_iff)
qed

section \<open>Reset requests\<close>

text \<open>
  C7. \<open>POST /forgot-password\<close> for an email that belongs to a user, when the reset
  email is sent successfully, and for an email that belongs to no user, give the same
  response: status 200 with the same body.
\<close>

theorem forgot_password_same_response:
  assumes "fp_email ra = Some ea" "ea \<noteq> []" "user_by_email da ea = Some u"
    and "emailResult_success ra"
    and "fp_email rb = Some eb" "eb \<noteq> []" "user_by_email db eb = None"
  shows "fst (forgot_password ra da) = fst (forgot_password rb db) \<and>
         fst (forgot_password ra da) =
           Json 200 True
             ''If an account with that email exists, a password reset link has been sent.''"
  using assms by (simp add: forgot_password_def truthy_def Let_def)

theorem forgot_password_same_response_witness:
  "fst (forgot_password (forgot ''steve@example.org'' ''aa11'') forum) =
   fst (forgot_password (forgot ''nobody@example.org'' ''bb22'') forum)"
proof -
  have a: "user_by_email forum ''steve@example.org'' = Some steve"
    by (simp add: user_by_email_def forum_def steve_def)
  have b: "user_by_email forum ''nobody@example.org'' = None"
    by (simp add: user_by_email_def forum_def steve_def)
  have fa: "fp_email (forgot ''steve@example.org'' ''aa11'') = Some ''steve@example.org''"
    and fb: "fp_email (forgot ''nobody@example.org'' ''bb22'') = Some ''nobody@example.org''"
    and ok: "emailResult_success (forgot ''steve@example.org'' ''aa11'')"
    by (simp_all add: forgot_def)
  have ne: "''steve@example.org'' \<noteq> []" "''nobody@example.org'' \<noteq> []" by simp_all
  from forgot_password_same_response[OF fa ne(1) a ok fb ne(2) b]
  show ?thesis by (rule conjunct1)
qed

text \<open>
  C1. The claim is that a user has at most one active reset token after any sequence
  of requests. On the code, two requests for steve's email with two different random
  tokens leave two rows of steve's that are unused and unexpired: the table has no
  uniqueness constraint on \<open>user_id\<close>, so \<open>INSERT OR REPLACE\<close> replaces nothing.
\<close>

theorem second_reset_keeps_first_token:
  "active_tokens
     (forgot_seq [forgot ''steve@example.org'' ''aa11'', forgot ''steve@example.org'' ''bb22''] forum)
     1 ''2025-12-01 10:30:00'' =
     [\<lparr>prt_id = 1, prt_user_id = 1, prt_token = ''aa11'',
       prt_expires_at = ''2025-12-01T11:00:00.000Z'', prt_used = False\<rparr>,
      \<lparr>prt_id = 2, prt_user_id = 1, prt_token = ''bb22'',
       prt_expires_at = ''2025-12-01T11:00:00.000Z'', prt_used = False\<rparr>]"
  by (simp add: active_tokens_def forgot_password_def forgot_def forum_def steve_def
        user_by_email_def truthy_def insert_or_replace_token_def next_rowid_def Let_def)

theorem second_reset_keeps_first_token_witness:
  "length (active_tokens
     (forgot_seq [forgot ''steve@example.org'' ''aa11'', forgot ''steve@example.org'' ''bb22''] forum)
     1 ''2025-12-01 10:30:00'') = 2"
  by (simp only: second_reset_keeps_first_token) simp

text \<open>
  C5. The claim is that a reset fails when the new password breaks any rule of the
  password policy. On the code, \<open>POST /reset-password\<close> checks the length only: the
  password \<open>abcdefgh\<close>, which has no uppercase letter and no digit, is accepted and
  stored.
\<close>

theorem reset_password_accepts_weak_password:
  "\<not> list_ex is_uppercase ''abcdefgh'' \<and> \<not> list_ex is_digit ''abcdefgh'' \<and>
   reset_password bcrypt_hash (submit ''abcdefgh'' ''abcdefgh'') forum_with_token =
     (Redirect ''/login?reset=success'',
      forum\<lparr>users := [steve\<lparr>password_hash := ''$2b$abcdefgh''\<rparr>], prt_seq := 1\<rparr>)"
  by (simp add: reset_password_def submit_def truthy_def select_reset_record_def
        forum_with_token_def steve_token_def forum_def user_by_id_def steve_def update_user_def
        bcrypt_hash_def is_uppercase_def is_digit_def js_length_def utf16_units_def)

theorem reset_password_accepts_weak_password_witness:
  "fst (reset_password bcrypt_hash (submit ''abcdefgh'' ''abcdefgh'') forum_with_token) =
     Redirect ''/login?reset=success''"
  using reset_password_accepts_weak_password by (simp only: fst_conv)

section \<open>Chat\<close>

lemma filter_eq_distinct:
  "distinct xs \<Longrightarrow> c \<in> set xs \<Longrightarrow> filter (\<lambda>x. x = c) xs = [c]"
  by (induction xs) (auto simp: filter_empty_conv)

lemma chat_message_accepted:
  assumes "truthy (cr_message r)" "truthy_number (cr_userId r)"
    "user_by_id d (the (cr_userId r)) = Some u"
  shows "snd (chat_message sock r d) =
           [ToRoomExcept sock ''new-message'' (MessageData (message_payload r u d)),
            ToSocket sock ''message-sent'' (MessageData (message_payload r u d))]"
  using assms by (simp add: chat_message_def Let_def message_payload_def)

lemma received_by_sender:
  "received_by sock (deliveries members
       [ToRoomExcept sock ev1 p1, ToSocket sock ev2 p2]) = [(ev2, p2)]"
  by (simp add: received_by_def deliveries_def filter_map comp_def)

lemma received_by_other:
  assumes "distinct members" "c \<in> set members" "c \<noteq> sock"
  shows "received_by c (deliveries members
       [ToRoomExcept sock ev1 p1, ToSocket sock ev2 p2]) = [(ev1, p1)]"
proof -
  have "filter (\<lambda>x. x = c) (filter (\<lambda>x. x \<noteq> sock) members) = [c]"
    using assms by (intro filter_eq_distinct) auto
  then have "filter ((\<lambda>x. fst x = c) \<circ> (\<lambda>c. (c, ev1, p1))) (filter (\<lambda>x. x \<noteq> sock) members) = [c]"
    by (simp add: comp_def)
  then show ?thesis
    using assms(3) by (simp add: received_by_def deliveries_def filter_map)
qed

text \<open>
  C8. For a \<open>chat-message\<close> with a text and a user id that names a stored user: the
  sender's connection receives exactly one event, \<open>message-sent\<close>; every other member
  of the room receives exactly one event, \<open>new-message\<close>, with the same payload (all
  eight fields); and no \<open>new-message\<close> reaches the sender's connection.
\<close>

theorem chat_message_sender_confirmation:
  assumes "truthy (cr_message r)" "truthy_number (cr_userId r)"
    and "user_by_id d (the (cr_userId r)) = Some u"
    and "distinct members" "c \<in> set members" "c \<noteq> sock"
  shows "received_by sock (deliveries members (snd (chat_message sock r d))) =
           [(''message-sent'', MessageData (message_payload r u d))] \<and>
         received_by c (deliveries members (snd (chat_message sock r d))) =
           [(''new-message'', MessageData (message_payload r u d))] \<and>
         \<not> list_ex (\<lambda>x. fst x = sock \<and> fst (snd x) = ''new-message'')
             (deliveries members (snd (chat_message sock r d)))"
proof -
  note e = chat_message_accepted[OF assms(1-3)]
  have 1: "received_by sock (deliveries members (snd (chat_message sock r d))) =
           [(''message-sent'', MessageData (message_payload r u d))]"
    unfolding e by (rule received_by_sender)
  have 2: "received_by c (deliveries members (snd (chat_message sock r d))) =
           [(''new-message'', MessageData (message_payload r u d))]"
    unfolding e by (rule received_by_other[OF assms(4-6)])
  have 3: "\<not> list_ex (\<lambda>x. fst x = sock \<and> fst (snd x) = ''new-message'')
             (deliveries members (snd (chat_message sock r d)))"
    unfolding e by (auto simp: deliveries_def list_ex_iff)
  from 1 2 3 show ?thesis by (intro conjI)
qed

theorem chat_message_sender_confirmation_witness:
  "received_by ''sock-a'' (deliveries [''sock-a'', ''sock-b'']
      (snd (chat_message ''sock-a'' (say (Some ''hi'') (Some 1)) forum))) =
     [(''message-sent'', MessageData (message_payload (say (Some ''hi'') (Some 1)) steve forum))] \<and>
   received_by ''sock-b'' (deliveries [''sock-a'', ''sock-b'']
      (snd (chat_message ''sock-a'' (say (Some ''hi'') (Some 1)) forum))) =
     [(''new-message'', MessageData (message_payload (say (Some ''hi'') (Some 1)) steve forum))] \<and>
   md_display_name (message_payload (say (Some ''hi'') (Some 1)) steve forum) = ''Steve'' \<and>
   md_id (message_payload (say (Some ''hi'') (Some 1)) steve forum) = 1"
proof -
  have t: "truthy (cr_message (say (Some ''hi'') (Some 1)))"
    "truthy_number (cr_userId (say (Some ''hi'') (Some 1)))"
    by (simp_all add: say_def truthy_def truthy_number_def)
  have u: "user_by_id forum (the (cr_userId (say (Some ''hi'') (Some 1)))) = Some steve"
    by (simp add: say_def user_by_id_def forum_def steve_def)
  have m: "distinct [''sock-a'', ''sock-b'']" "''sock-b'' \<in> set [''sock-a'', ''sock-b'']"
    "''sock-b'' \<noteq> ''sock-a''" by simp_all
  note c = chat_message_sender_confirmation[OF t u m]
  have p: "md_display_name (message_payload (say (Some ''hi'') (Some 1)) steve forum) = ''Steve''"
    "md_id (message_payload (say (Some ''hi'') (Some 1)) steve forum) = 1"
    by (simp_all add: message_payload_def steve_def js_or_def forum_def next_rowid_def)
  from c[THEN conjunct1] c[THEN conjunct2, THEN conjunct1] p show ?thesis by (intro conjI)
qed

text \<open>
  C9. A \<open>chat-message\<close> whose text is missing or empty, whose user id is missing or
  zero, or whose user id names no stored user is dropped: the database is unchanged (no
  chat row is stored), nothing is emitted, and so no connection, the sender's included,
  receives anything.
\<close>

theorem chat_message_dropped:
  assumes "\<not> truthy (cr_message r) \<or> \<not> truthy_number (cr_userId r) \<or>
           user_by_id d (the (cr_userId r)) = None"
  shows "chat_message sock r d = (d, []) \<and>
         deliveries members (snd (chat_message sock r d)) = []"
  using assms by (auto simp: chat_message_def deliveries_def Let_def)

theorem chat_message_dropped_witness:
  "chat_message ''sock-a'' (say (Some []) (Some 1)) forum = (forum, []) \<and>
   chat_message ''sock-a'' (say (Some ''hi'') None) forum = (forum, []) \<and>
   chat_message ''sock-a'' (say (Some ''hi'') (Some 99)) forum = (forum, [])"
proof -
  have a: "\<not> truthy (cr_message (say (Some []) (Some 1)))"
    by (simp add: say_def truthy_def)
  have b: "\<not> truthy_number (cr_userId (say (Some ''hi'') None))"
    by (simp add: say_def truthy_number_def)
  have c: "user_by_id forum (the (cr_userId (say (Some ''hi'') (Some 99)))) = None"
    by (simp add: say_def user_by_id_def forum_def steve_def)
  from chat_message_dropped[OF disjI1, OF a, THEN conjunct1]
    chat_message_dropped[OF disjI2, OF disjI1, OF b, THEN conjunct1]
    chat_message_dropped[OF disjI2, OF disjI2, OF c, THEN conjunct1]
  show ?thesis by (intro conjI)
qed

text \<open>
  C6, as stated, fails: the \<open>disconnect\<close> handler keeps no record of having run, so
  running it twice for a connection that has joined emits \<open>user-left\<close> twice, and the
  other member of the room receives it twice.
\<close>

theorem disconnect_twice_counterexample:
  "\<not> length (user_left_events
        (disconnect ''2025-12-01T10:05:00.000Z'' ''sock-a''
           (fst (join_chat ''2025-12-01T10:00:00.000Z'' ''sock-a'' steve_identity lobby)) @
         disconnect ''2025-12-01T10:05:00.001Z'' ''sock-a''
           (fst (join_chat ''2025-12-01T10:00:00.000Z'' ''sock-a'' steve_identity lobby)))) \<le> 1 \<and>
   \<not> length (received_by ''sock-b'' (deliveries [''sock-b'']
        (disconnect ''2025-12-01T10:05:00.000Z'' ''sock-a''
           (fst (join_chat ''2025-12-01T10:00:00.000Z'' ''sock-a'' steve_identity lobby)) @
         disconnect ''2025-12-01T10:05:00.001Z'' ''sock-a''
           (fst (join_chat ''2025-12-01T10:00:00.000Z'' ''sock-a'' steve_identity lobby))))) \<le> 1"
  by (simp add: disconnect_def join_chat_def event_name_def user_left_events_def
        received_by_def deliveries_def)

text \<open>
  C6, amended. One run of the \<open>disconnect\<close> handler emits at most one \<open>user-left\<close>
  event; for a connection that never joined (no \<open>userData\<close>) it emits nothing, also when
  it runs twice; for a connection that joined it emits exactly one \<open>user-left\<close> to the
  rest of the room; and the disconnecting connection itself never receives it.
\<close>

theorem disconnect_once:
  "length (user_left_events (disconnect now sock st)) \<le> 1 \<and>
   (userData st sock = None \<longrightarrow>
      disconnect now sock st @ disconnect now' sock st = []) \<and>
   (userData st sock \<noteq> None \<longrightarrow>
      disconnect now sock st =
        [ToRoomExcept sock ''user-left''
           (Presence (js_or_opt (ud_displayName (the (userData st sock)))
                        (ud_username (the (userData st sock)))) now)]) \<and>
   \<not> list_ex (\<lambda>x. fst x = sock) (deliveries members (disconnect now sock st))"
  by (auto simp: disconnect_def event_name_def user_left_events_def deliveries_def list_ex_iff
        split: option.splits)

theorem disconnect_once_witness:
  "disconnect ''2025-12-01T10:05:00.000Z'' ''sock-a'' lobby @
   disconnect ''2025-12-01T10:05:00.001Z'' ''sock-a'' lobby = [] \<and>
   deliveries [''sock-b'']
     (disconnect ''2025-12-01T10:05:00.000Z'' ''sock-a''
        (fst (join_chat ''2025-12-01T10:00:00.000Z'' ''sock-a'' steve_identity lobby))) =
     [(''sock-b'', ''user-left'', Presence (Some ''Steve'') ''2025-12-01T10:05:00.000Z'')]"
proof -
  let ?st = "fst (join_chat ''2025-12-01T10:00:00.000Z'' ''sock-a'' steve_identity lobby)"
  have n: "userData lobby ''sock-a'' = None" by (simp add: lobby_def)
  have j: "userData ?st ''sock-a'' \<noteq> None" by (simp add: join_chat_def)
  note a = disconnect_once[of "''2025-12-01T10:05:00.000Z''" "''sock-a''" lobby
      "''2025-12-01T10:05:00.001Z''" "[]", THEN conjunct2, THEN conjunct1, rule_format, OF n]
  note b = disconnect_once[of "''2025-12-01T10:05:00.000Z''" "''sock-a''" ?st
      "''2025-12-01T10:05:00.001Z''" "[]", THEN conjunct2, THEN conjunct2, THEN conjunct1,
      rule_format, OF j]
  have "deliveries [''sock-b''] (disconnect ''2025-12-01T10:05:00.000Z'' ''sock-a'' ?st) =
     [(''sock-b'', ''user-left'', Presence (Some ''Steve'') ''2025-12-01T10:05:00.000Z'')]"
    unfolding b by (simp add: deliveries_def join_chat_def steve_identity_def js_or_opt_def truthy_def)
  with a show ?thesis by (intro conjI)
qed

end
